theory Spec2Isabelle
  imports Main "HOL-Library.Sublist" "HOL-Library.Multiset"
begin

section \<open>The iRODS item and its AVU entries\<close>

text \<open>
  An AVU entry as the client library hands it to \<^verbatim>\<open>ibridges/meta.py\<close>: an object with the
  attributes \<^verbatim>\<open>name\<close>, \<^verbatim>\<open>value\<close> and \<^verbatim>\<open>units\<close>, where \<^verbatim>\<open>units\<close> is \<^verbatim>\<open>None\<close> when the
  entry has no units.
\<close>

record avu =
  avu_name :: string
  avu_value :: string
  avu_units :: "string option"

datatype item_kind = DataObjectKind | CollectionKind | OtherKind

text \<open>
  The handle of a remote item (\<^verbatim>\<open>iRODSDataObject\<close> or \<^verbatim>\<open>iRODSCollection\<close>): its identity,
  the AVU entries the catalogue holds for it, and whether the catalogue grants the
  session the right to change them.
\<close>

record irods_item =
  item_name :: string
  item_id :: nat
  item_path :: string
  item_kind :: item_kind
  checksum :: string
  metadata :: "avu list"
  writable :: bool

datatype irods_exception = CAT_NO_ACCESS_PERMISSION | CAT_SUCCESS_BUT_WITH_NO_INFO

text \<open>
  Modelled from the spec: the item handle's capability set (\<^verbatim>\<open>item.metadata.items\<close>,
  \<^verbatim>\<open>get_all\<close>, \<^verbatim>\<open>add\<close>, \<^verbatim>\<open>remove\<close>) belongs to the client library, which is not part of the
  sources. The catalogue keeps the entries of an item; a call that changes them is
  refused with \<^verbatim>\<open>CAT_NO_ACCESS_PERMISSION\<close> when the session lacks the right, and removing
  an entry that is not there ends in \<^verbatim>\<open>CAT_SUCCESS_BUT_WITH_NO_INFO\<close>. A refused call
  changes nothing. Units that are absent and units that are the empty string are the
  same to the catalogue (\<open>''\<close> clears the units), and are listed back as \<^verbatim>\<open>None\<close>.
\<close>

definition stored_units :: "string option \<Rightarrow> string option" where
  "stored_units u = (case u of None \<Rightarrow> None | Some s \<Rightarrow> if s = [] then None else Some s)"

definition same_avu :: "string \<Rightarrow> string \<Rightarrow> string option \<Rightarrow> avu \<Rightarrow> bool" where
  "same_avu k v u e \<longleftrightarrow>
     avu_name e = k \<and> avu_value e = v \<and> stored_units (avu_units e) = stored_units u"

fun remove_first :: "('a \<Rightarrow> bool) \<Rightarrow> 'a list \<Rightarrow> 'a list" where
  "remove_first P [] = []"
| "remove_first P (x # xs) = (if P x then xs else x # remove_first P xs)"

definition metadata_items :: "irods_item \<Rightarrow> avu list" where
  "metadata_items it = metadata it"

definition metadata_get_all :: "irods_item \<Rightarrow> string \<Rightarrow> avu list" where
  "metadata_get_all it key = filter (\<lambda>e. avu_name e = key) (metadata it)"

definition metadata_add ::
  "irods_item \<Rightarrow> string \<Rightarrow> string \<Rightarrow> string option \<Rightarrow> irods_exception option \<times> irods_item" where
  "metadata_add it key val un =
     (if \<not> writable it then (Some CAT_NO_ACCESS_PERMISSION, it)
      else (None, it\<lparr>metadata := metadata it @
              [\<lparr>avu_name = key, avu_value = val, avu_units = stored_units un\<rparr>]\<rparr>))"

definition metadata_remove ::
  "irods_item \<Rightarrow> string \<Rightarrow> string \<Rightarrow> string option \<Rightarrow> irods_exception option \<times> irods_item" where
  "metadata_remove it key val un =
     (if \<not> writable it then (Some CAT_NO_ACCESS_PERMISSION, it)
      else if list_ex (same_avu key val un) (metadata it)
      then (None, it\<lparr>metadata := remove_first (same_avu key val un) (metadata it)\<rparr>)
      else (Some CAT_SUCCESS_BUT_WITH_NO_INFO, it))"

definition metadata_remove_meta ::
  "irods_item \<Rightarrow> avu \<Rightarrow> irods_exception option \<times> irods_item" where
  "metadata_remove_meta it m = metadata_remove it (avu_name m) (avu_value m) (avu_units m)"

section \<open>Regular expressions of the blacklist\<close>

text \<open>
  The fragment of Python's \<^verbatim>\<open>re\<close> that the blacklist \<^verbatim>\<open>^org_*\<close> is written in: the anchor
  \<^verbatim>\<open>^\<close>, a literal character, and a literal character under \<^verbatim>\<open>*\<close>. \<^verbatim>\<open>re.match\<close> looks for
  a match that begins at the first character of the name and may end anywhere; the flag
  of \<open>rx_match\<close> says whether the matcher still stands at the beginning.
\<close>

datatype rx = Bol | Lit char | Star char

fun rx_match :: "rx list \<Rightarrow> bool \<Rightarrow> string \<Rightarrow> bool" where
  "rx_match [] b s = True"
| "rx_match (Bol # r) b s = (b \<and> rx_match r b s)"
| "rx_match (Lit c # r) b [] = False"
| "rx_match (Lit c # r) b (x # xs) = (x = c \<and> rx_match r False xs)"
| "rx_match (Star c # r) b [] = rx_match r b []"
| "rx_match (Star c # r) b (x # xs) =
     (rx_match r b (x # xs) \<or> (x = c \<and> rx_match (Star c # r) False xs))"

definition re_match :: "rx list \<Rightarrow> string \<Rightarrow> bool" where
  "re_match pat s = rx_match pat True s"

text \<open>The default of the constructor, \<^verbatim>\<open>blacklist: str = r"^org_*"\<close>.\<close>

definition default_blacklist :: "rx list" where
  "default_blacklist = [Bol, Lit CHR ''o'', Lit CHR ''r'', Lit CHR ''g'', Star CHR ''_'']"

section \<open>The MetaData view\<close>

record MetaData =
  item :: irods_item
  blacklist :: "rx list option"

datatype reason =
  AlreadyPresent | KeyBlacklisted | NoNewValueOrUnit | EmptyNewValue | DoesNotExist
  | InsufficientPermission | NotCollectionOrDataObject

datatype exn =
  ValueError reason | PermissionError | KeyError | AttributeError | TypeError
  | Irods irods_exception

text \<open>
  What \<^verbatim>\<open>__iter__\<close> yields. With a \<^verbatim>\<open>None\<close> blacklist the generator first yields the whole
  list \<^verbatim>\<open>self.item.metadata.items()\<close> as one object and then every entry; with a pattern
  it yields the entries whose name the pattern does not match (the warning for a
  skipped entry has no effect on the result and is left out).
\<close>

datatype yielded = Items "avu list" | Entry avu

fun iter_loop :: "rx list option \<Rightarrow> avu list \<Rightarrow> yielded list" where
  "iter_loop bl [] = []"
| "iter_loop bl (m # ms) =
     (case bl of
        None \<Rightarrow> Entry m # iter_loop bl ms
      | Some pat \<Rightarrow>
          if \<not> re_match pat (avu_name m) then Entry m # iter_loop bl ms
          else iter_loop bl ms)"

definition iter :: "MetaData \<Rightarrow> yielded list" where
  "iter m =
     (case blacklist m of None \<Rightarrow> [Items (metadata_items (item m))] | Some _ \<Rightarrow> [])
     @ iter_loop (blacklist m) (metadata_items (item m))"

definition len :: "MetaData \<Rightarrow> nat" where
  "len m = length (iter m)"

text \<open>
  \<^verbatim>\<open>__contains__\<close>: \<open>val\<close> is the sequence of components looked for, \<^verbatim>\<open>None\<close> standing for any
  value at its position. \<^verbatim>\<open>getattr\<close> of an entry reads the attribute; of the list that
  a \<^verbatim>\<open>None\<close> blacklist yields first it raises \<^verbatim>\<open>AttributeError\<close>.
\<close>

datatype attr = Name | Value | Units

fun getattr :: "yielded \<Rightarrow> attr \<Rightarrow> exn + string option" where
  "getattr (Items _) _ = Inl AttributeError"
| "getattr (Entry e) Name = Inr (Some (avu_name e))"
| "getattr (Entry e) Value = Inr (Some (avu_value e))"
| "getattr (Entry e) Units = Inr (avu_units e)"

fun n_same :: "yielded \<Rightarrow> (attr \<times> string option) list \<Rightarrow> exn + nat" where
  "n_same meta [] = Inr 0"
| "n_same meta ((a, v) # rest) =
     (case getattr meta a of
        Inl e \<Rightarrow> Inl e
      | Inr x \<Rightarrow>
          if x = v \<or> v = None
          then (case n_same meta rest of Inl e \<Rightarrow> Inl e | Inr n \<Rightarrow> Inr (Suc n))
          else Inr 0)"

fun contains_loop :: "yielded list \<Rightarrow> string option list \<Rightarrow> exn + bool" where
  "contains_loop [] val = Inr False"
| "contains_loop (meta # metas) val =
     (case n_same meta (zip (take (length val) [Name, Value, Units]) val) of
        Inl e \<Rightarrow> Inl e
      | Inr n \<Rightarrow> if n = length val then Inr True else contains_loop metas val)"

definition contains :: "MetaData \<Rightarrow> string option list \<Rightarrow> exn + bool" where
  "contains m val = contains_loop (iter m) val"

text \<open>
  \<^verbatim>\<open>add\<close>. The result is the exception that leaves the method (\<open>None\<close> when it returns)
  together with the view afterwards. Only \<^verbatim>\<open>CAT_NO_ACCESS_PERMISSION\<close> is caught and
  turned into \<^verbatim>\<open>PermissionError\<close>; \<^verbatim>\<open>re.match\<close> with a \<^verbatim>\<open>None\<close> pattern is a \<^verbatim>\<open>TypeError\<close>.
\<close>

definition add :: "MetaData \<Rightarrow> string \<Rightarrow> string \<Rightarrow> string option \<Rightarrow> exn option \<times> MetaData" where
  "add m key val un =
     (case contains m [Some key, Some val, un] of
        Inl e \<Rightarrow> (Some e, m)
      | Inr True \<Rightarrow> (Some (ValueError AlreadyPresent), m)
      | Inr False \<Rightarrow>
          (case blacklist m of
             None \<Rightarrow> (Some TypeError, m)
           | Some pat \<Rightarrow>
               if re_match pat key then (Some (ValueError KeyBlacklisted), m)
               else (case metadata_add (item m) key val un of
                       (None, it) \<Rightarrow> (None, m\<lparr>item := it\<rparr>)
                     | (Some CAT_NO_ACCESS_PERMISSION, it) \<Rightarrow> (Some PermissionError, m\<lparr>item := it\<rparr>)
                     | (Some e, it) \<Rightarrow> (Some (Irods e), m\<lparr>item := it\<rparr>))))"

text \<open>
  \<^verbatim>\<open>delete\<close>. An argument left at its default is the \<^verbatim>\<open>Ellipsis\<close> object. The condition of
  the loop is Python's
  \<^verbatim>\<open>value is ... or value == meta.value and units is ... or units == meta.units\<close>,
  in which \<^verbatim>\<open>and\<close> binds tighter than \<^verbatim>\<open>or\<close>. (A \<^verbatim>\<open>value\<close> of \<^verbatim>\<open>None\<close> is not modelled: the
  entries of the catalogue always carry a string as value.)
\<close>

datatype 'a arg = Ellipsis | Given 'a

definition delete_cond :: "string arg \<Rightarrow> string option arg \<Rightarrow> avu \<Rightarrow> bool" where
  "delete_cond val un meta \<longleftrightarrow>
     val = Ellipsis \<or> (val = Given (avu_value meta) \<and> un = Ellipsis) \<or> un = Given (avu_units meta)"

fun delete_loop ::
  "irods_item \<Rightarrow> avu list \<Rightarrow> string arg \<Rightarrow> string option arg \<Rightarrow> irods_exception option \<times> irods_item" where
  "delete_loop it [] val un = (None, it)"
| "delete_loop it (meta # metas) val un =
     (if delete_cond val un meta
      then (case metadata_remove_meta it meta of
              (None, it') \<Rightarrow> delete_loop it' metas val un
            | (Some e, it') \<Rightarrow> (Some e, it'))
      else delete_loop it metas val un)"

definition delete_body ::
  "irods_item \<Rightarrow> string \<Rightarrow> string arg \<Rightarrow> string option arg \<Rightarrow> irods_exception option \<times> irods_item" where
  "delete_body it key val un =
     (case (val, un) of
        (Given v, Given u) \<Rightarrow> metadata_remove it key v u
      | _ \<Rightarrow> delete_loop it (metadata_get_all it key) val un)"

definition delete :: "MetaData \<Rightarrow> string \<Rightarrow> string arg \<Rightarrow> string option arg \<Rightarrow> exn option \<times> MetaData" where
  "delete m key val un =
     (case delete_body (item m) key val un of
        (None, it) \<Rightarrow> (None, m\<lparr>item := it\<rparr>)
      | (Some CAT_SUCCESS_BUT_WITH_NO_INFO, it) \<Rightarrow> (Some KeyError, m\<lparr>item := it\<rparr>)
      | (Some CAT_NO_ACCESS_PERMISSION, it) \<Rightarrow>
          (Some (ValueError InsufficientPermission), m\<lparr>item := it\<rparr>))"

text \<open>\<^verbatim>\<open>set\<close>: \<^verbatim>\<open>self.delete(key)\<close>, then \<^verbatim>\<open>self.add(key, value, units)\<close>.\<close>

definition set_meta :: "MetaData \<Rightarrow> string \<Rightarrow> string \<Rightarrow> string option \<Rightarrow> exn option \<times> MetaData" where
  "set_meta m key val un =
     (case delete m key Ellipsis Ellipsis of
        (Some e, m') \<Rightarrow> (Some e, m')
      | (None, m') \<Rightarrow> add m' key val un)"

text \<open>
  \<^verbatim>\<open>update\<close>, in the three steps of the source: the checks of the arguments, the add of
  the replacement, the delete of the original.
\<close>

definition update_check ::
  "MetaData \<Rightarrow> string \<Rightarrow> string \<Rightarrow> string option \<Rightarrow> string option \<Rightarrow> string option \<Rightarrow> exn option" where
  "update_check m key val un new_value new_units =
     (if new_value = None \<and> new_units = None then Some (ValueError NoNewValueOrUnit)
      else if new_value = Some [] then Some (ValueError EmptyNewValue)
      else (case (if un = None then contains m [Some key, Some val]
                  else contains m [Some key, Some val, un]) of
              Inl e \<Rightarrow> Some e
            | Inr False \<Rightarrow> Some (ValueError DoesNotExist)
            | Inr True \<Rightarrow> None))"

definition update_add ::
  "MetaData \<Rightarrow> string \<Rightarrow> string \<Rightarrow> string option \<Rightarrow> string option \<Rightarrow> string option \<Rightarrow> exn option \<times> MetaData" where
  "update_add m key val un new_value new_units =
     (case (new_value, new_units) of
        (Some nv, Some nu) \<Rightarrow> add m key nv (Some nu)
      | (Some nv, None) \<Rightarrow> add m key nv un
      | (None, Some nu) \<Rightarrow> add m key val (Some nu)
      | (None, None) \<Rightarrow> (None, m))"

definition truthy :: "string option \<Rightarrow> bool" where
  "truthy un \<longleftrightarrow> (case un of None \<Rightarrow> False | Some s \<Rightarrow> s \<noteq> [])"

definition update_delete ::
  "MetaData \<Rightarrow> string \<Rightarrow> string \<Rightarrow> string option \<Rightarrow> exn option \<times> MetaData" where
  "update_delete m key val un =
     (if truthy un then delete m key (Given val) (Given un)
      else delete m key (Given val) (Given (Some [])))"

definition update ::
  "MetaData \<Rightarrow> string \<Rightarrow> string \<Rightarrow> string option \<Rightarrow> string option \<Rightarrow> string option \<Rightarrow> exn option \<times> MetaData" where
  "update m key val un new_value new_units =
     (case update_check m key val un new_value new_units of
        Some e \<Rightarrow> (Some e, m)
      | None \<Rightarrow>
          (case update_add m key val un new_value new_units of
             (Some e, m') \<Rightarrow> (Some e, m')
           | (None, m') \<Rightarrow> update_delete m' key val un))"

text \<open>
  \<^verbatim>\<open>clear\<close> removes what iterating the view yields; nothing is caught. The list a \<^verbatim>\<open>None\<close>
  blacklist yields first is no entry, and removing it is an \<^verbatim>\<open>AttributeError\<close>.
\<close>

fun clear_loop :: "irods_item \<Rightarrow> yielded list \<Rightarrow> exn option \<times> irods_item" where
  "clear_loop it [] = (None, it)"
| "clear_loop it (Items _ # ys) = (Some AttributeError, it)"
| "clear_loop it (Entry e # ys) =
     (case metadata_remove_meta it e of
        (None, it') \<Rightarrow> clear_loop it' ys
      | (Some x, it') \<Rightarrow> (Some (Irods x), it'))"

definition clear :: "MetaData \<Rightarrow> exn option \<times> MetaData" where
  "clear m = (case clear_loop (item m) (iter m) of (r, it) \<Rightarrow> (r, m\<lparr>item := it\<rparr>))"

text \<open>
  \<^verbatim>\<open>to_dict\<close>. The dictionary has the keys \<^verbatim>\<open>name\<close>, \<^verbatim>\<open>irods_id\<close>, \<^verbatim>\<open>metadata\<close> and, for a data
  object, \<^verbatim>\<open>checksum\<close>.
\<close>

record meta_dict =
  d_name :: string
  d_irods_id :: nat
  d_checksum :: "string option"
  d_metadata :: "(string \<times> string \<times> string option) list"

fun triplets :: "yielded list \<Rightarrow> string list option \<Rightarrow> exn + (string \<times> string \<times> string option) list" where
  "triplets [] keys = Inr []"
| "triplets (Items _ # ys) keys = Inl AttributeError"
| "triplets (Entry e # ys) keys =
     (case triplets ys keys of
        Inl x \<Rightarrow> Inl x
      | Inr ts \<Rightarrow>
          (case keys of
             None \<Rightarrow> Inr ((avu_name e, avu_value e, avu_units e) # ts)
           | Some ks \<Rightarrow>
               if avu_name e \<in> set ks then Inr ((avu_name e, avu_value e, avu_units e) # ts)
               else Inr ts))"

definition to_dict :: "MetaData \<Rightarrow> string list option \<Rightarrow> exn + meta_dict" where
  "to_dict m keys =
     (case triplets (iter m) keys of
        Inl x \<Rightarrow> Inl x
      | Inr ts \<Rightarrow>
          Inr \<lparr>d_name = item_name (item m), d_irods_id = item_id (item m),
               d_checksum = (if item_kind (item m) = DataObjectKind
                             then Some (checksum (item m)) else None),
               d_metadata = ts\<rparr>)"

text \<open>
  \<^verbatim>\<open>from_dict\<close>: \<^verbatim>\<open>add\<close> for every tuple of \<^verbatim>\<open>meta_dict["metadata"]\<close>, with
  \<^verbatim>\<open>except ValueError: pass\<close> around each call.
\<close>

fun from_dict_loop ::
  "MetaData \<Rightarrow> (string \<times> string \<times> string option) list \<Rightarrow> exn option \<times> MetaData" where
  "from_dict_loop m [] = (None, m)"
| "from_dict_loop m ((k, v, u) # ts) =
     (case add m k v u of
        (None, m') \<Rightarrow> from_dict_loop m' ts
      | (Some (ValueError _), m') \<Rightarrow> from_dict_loop m' ts
      | (Some e, m') \<Rightarrow> (Some e, m'))"

definition from_dict :: "MetaData \<Rightarrow> meta_dict \<Rightarrow> exn option \<times> MetaData" where
  "from_dict m md = from_dict_loop m (d_metadata md)"

section \<open>Exporting metadata\<close>

text \<open>
  A collection as \<^verbatim>\<open>get_subcolls\<close> walks it: the collection's own item, its
  \<^verbatim>\<open>data_objects\<close> and its \<^verbatim>\<open>subcollections\<close>.
\<close>

datatype collection =
  Collection (coll_item: irods_item) (data_objects: "irods_item list")
    (subcollections: "collection list")

text \<open>
  One entry of the lists \<^verbatim>\<open>objects\<close> and \<^verbatim>\<open>collections\<close>: a dictionary with the keys
  \<^verbatim>\<open>name\<close>, \<^verbatim>\<open>irods_id\<close>, \<^verbatim>\<open>rel_path\<close> and \<^verbatim>\<open>metadata\<close>, the last one holding the
  \<^verbatim>\<open>to_dict()\<close> of a view with the default blacklist.
\<close>

record export_record =
  r_name :: string
  r_irods_id :: nat
  r_rel_path :: string
  r_metadata :: meta_dict

text \<open>\<^verbatim>\<open>sep.join(xs)\<close> of Python.\<close>

fun join :: "string \<Rightarrow> string list \<Rightarrow> string" where
  "join sep [] = []"
| "join sep [x] = x"
| "join sep (x # y # ys) = x @ sep @ join sep (y # ys)"

text \<open>
  \<^verbatim>\<open>IrodsPath\<close> lives in \<^verbatim>\<open>ibridges/path.py\<close>, which is not among the sources; of an
  \<^verbatim>\<open>IrodsPath\<close> only \<^verbatim>\<open>.parts\<close>, the segments of the path, is used. The function from a
  path to its segments is the parameter \<open>parts\<close> of the definitions below.
\<close>

definition item_record ::
  "(string \<Rightarrow> string list) \<Rightarrow> string \<Rightarrow> irods_item \<Rightarrow> exn + export_record" where
  "item_record parts coll_path it =
     (case to_dict \<lparr>item = it, blacklist = Some default_blacklist\<rparr> None of
        Inl e \<Rightarrow> Inl e
      | Inr d \<Rightarrow>
          Inr \<lparr>r_name = item_name it, r_irods_id = item_id it,
               r_rel_path = join ''/'' (drop (length (parts coll_path)) (parts (item_path it))),
               r_metadata = d\<rparr>)"

text \<open>A list comprehension whose element expression may raise.\<close>

fun comprehension :: "('a \<Rightarrow> exn + 'b) \<Rightarrow> 'a list \<Rightarrow> exn + 'b list" where
  "comprehension f [] = Inr []"
| "comprehension f (x # xs) =
     (case f x of
        Inl e \<Rightarrow> Inl e
      | Inr y \<Rightarrow> (case comprehension f xs of Inl e \<Rightarrow> Inl e | Inr ys \<Rightarrow> Inr (y # ys)))"

text \<open>
  The loop \<^verbatim>\<open>for subcoll in coll.subcollections\<close>, over the results of the recursive
  calls: each one extends the two lists, the first exception ends the loop.
\<close>

fun extend_loop ::
  "export_record list \<times> export_record list \<Rightarrow>
   (exn + export_record list \<times> export_record list) list \<Rightarrow>
   exn + export_record list \<times> export_record list" where
  "extend_loop acc [] = Inr acc"
| "extend_loop acc (Inl e # rs) = Inl e"
| "extend_loop (objects, collections) (Inr (subobjects, subcolls) # rs) =
     extend_loop (objects @ subobjects, collections @ subcolls) rs"

fun get_subcolls ::
  "(string \<Rightarrow> string list) \<Rightarrow> collection \<Rightarrow> string option \<Rightarrow>
   exn + export_record list \<times> export_record list" where
  "get_subcolls parts (Collection c objs subs) root =
     (let coll_path = (case root of Some r \<Rightarrow> r | None \<Rightarrow> item_path c) in
      case comprehension (item_record parts coll_path) objs of
        Inl e \<Rightarrow> Inl e
      | Inr objects \<Rightarrow>
          (case comprehension (item_record parts coll_path) (map coll_item subs) of
             Inl e \<Rightarrow> Inl e
           | Inr collections \<Rightarrow>
               if length subs > 0
               then extend_loop (objects, collections)
                      (map (\<lambda>subcoll. get_subcolls parts subcoll (Some coll_path)) subs)
               else Inr (objects, [])))"

text \<open>
  The dictionary \<^verbatim>\<open>export_metadata_to_dict\<close> returns: the \<^verbatim>\<open>to_dict\<close> of the item alone, or
  with the keys \<^verbatim>\<open>subcollections\<close> and \<^verbatim>\<open>dataobjects\<close> added.
\<close>

datatype export =
  Plain meta_dict
  | WithDescendants meta_dict (e_subcollections: "export_record list")
      (e_dataobjects: "export_record list")

text \<open>
  \<^verbatim>\<open>export_metadata_to_dict\<close>. \<^verbatim>\<open>is_dataobject\<close> and \<^verbatim>\<open>is_collection\<close> (of
  \<^verbatim>\<open>ibridges/data_operations.py\<close>, not among the sources) tell the kind of the item, here
  the field \<open>item_kind\<close>; \<open>children\<close> are \<^verbatim>\<open>meta.item.data_objects\<close> and
  \<^verbatim>\<open>meta.item.subcollections\<close> of an item that is a collection.
\<close>

definition export_metadata_to_dict ::
  "(string \<Rightarrow> string list) \<Rightarrow> MetaData \<Rightarrow> irods_item list \<times> collection list \<Rightarrow> bool \<Rightarrow>
   string list option \<Rightarrow> exn + export" where
  "export_metadata_to_dict parts meta children recursive keys =
     (if item_kind (item meta) = DataObjectKind
      then (case to_dict meta keys of Inl e \<Rightarrow> Inl e | Inr d \<Rightarrow> Inr (Plain d))
      else if item_kind (item meta) = CollectionKind
      then (case to_dict meta keys of
              Inl e \<Rightarrow> Inl e
            | Inr metadata_dict \<Rightarrow>
                if recursive
                then (case get_subcolls parts
                             (Collection (item meta) (fst children) (snd children))
                             (Some (item_path (item meta))) of
                        Inl e \<Rightarrow> Inl e
                      | Inr (objects, collections) \<Rightarrow>
                          Inr (WithDescendants metadata_dict collections objects))
                else Inr (Plain metadata_dict))
      else Inl (ValueError NotCollectionOrDataObject))"

text \<open>
  Modelled from the spec: \<^verbatim>\<open>IrodsPath.parts\<close> of \<^verbatim>\<open>ibridges/path.py\<close>, the
  path-separator-delimited segments of a path. As for a pure POSIX path, the leading
  separator of an absolute path is a segment of its own and empty segments are dropped.
\<close>

fun split_path :: "string \<Rightarrow> string \<Rightarrow> string list" where
  "split_path cur [] = [cur]"
| "split_path cur (c # cs) =
     (if c = CHR ''/'' then cur # split_path [] cs else split_path (cur @ [c]) cs)"

definition posix_parts :: "string \<Rightarrow> string list" where
  "posix_parts p =
     (case p of [] \<Rightarrow> [] | c # _ \<Rightarrow> if c = CHR ''/'' then [''/''] else [])
     @ filter (\<lambda>s. s \<noteq> []) (split_path [] p)"

section \<open>Notions used in the statements\<close>

text \<open>The entries a view with the pattern \<open>pat\<close> shows.\<close>

definition visible :: "rx list \<Rightarrow> irods_item \<Rightarrow> avu list" where
  "visible pat it = filter (\<lambda>e. \<not> re_match pat (avu_name e)) (metadata it)"

text \<open>What the catalogue tells two entries apart by.\<close>

definition avu_key :: "avu \<Rightarrow> string \<times> string \<times> string option" where
  "avu_key e = (avu_name e, avu_value e, stored_units (avu_units e))"

text \<open>
  The data objects and the subcollections below a collection, at any depth: those of
  the collection itself, then those below each of its subcollections in turn.
\<close>

fun descendant_objects :: "collection \<Rightarrow> irods_item list" where
  "descendant_objects (Collection c objs subs) = objs @ concat (map descendant_objects subs)"

fun descendant_collections :: "collection \<Rightarrow> irods_item list" where
  "descendant_collections (Collection c objs subs) =
     map coll_item subs @ concat (map descendant_collections subs)"

text \<open>
  The record of a descendant in an export below the path \<open>root\<close>: its relative path is made
  of its segments beyond the number of segments of \<open>root\<close>.
\<close>

definition descendant_record :: "(string \<Rightarrow> string list) \<Rightarrow> string \<Rightarrow> irods_item \<Rightarrow> export_record" where
  "descendant_record parts root it =
     \<lparr>r_name = item_name it, r_irods_id = item_id it,
      r_rel_path = join ''/'' (drop (length (parts root)) (parts (item_path it))),
      r_metadata =
        \<lparr>d_name = item_name it, d_irods_id = item_id it,
         d_checksum = (if item_kind it = DataObjectKind then Some (checksum it) else None),
         d_metadata = map (\<lambda>e. (avu_name e, avu_value e, avu_units e))
                        (visible default_blacklist it)\<rparr>\<rparr>"

text \<open>Items and views for the examples.\<close>

definition AVU :: "string \<Rightarrow> string \<Rightarrow> string option \<Rightarrow> avu" where
  "AVU k v u = \<lparr>avu_name = k, avu_value = v, avu_units = u\<rparr>"

definition example_item :: "avu list \<Rightarrow> bool \<Rightarrow> irods_item" where
  "example_item es w =
     \<lparr>item_name = ''obj'', item_id = 1, item_path = ''/zone/home/obj'',
      item_kind = DataObjectKind, checksum = ''sha2:abc'', metadata = es, writable = w\<rparr>"

definition example_view :: "avu list \<Rightarrow> bool \<Rightarrow> MetaData" where
  "example_view es w = \<lparr>item = example_item es w, blacklist = Some default_blacklist\<rparr>"

definition example_dict :: "(string \<times> string \<times> string option) list \<Rightarrow> meta_dict" where
  "example_dict ts = \<lparr>d_name = ''obj'', d_irods_id = 1, d_checksum = None, d_metadata = ts\<rparr>"

text \<open>
  The collection \<^verbatim>\<open>/zone/home/root\<close> with the subcollection \<^verbatim>\<open>sub\<close>, which holds the data
  object \<^verbatim>\<open>x.txt\<close>.
\<close>

definition example_data_object :: irods_item where
  "example_data_object =
     \<lparr>item_name = ''x.txt'', item_id = 3, item_path = ''/zone/home/root/sub/x.txt'',
      item_kind = DataObjectKind, checksum = ''sha2:abc'', metadata = [], writable = True\<rparr>"

definition example_subcollection :: irods_item where
  "example_subcollection =
     \<lparr>item_name = ''sub'', item_id = 2, item_path = ''/zone/home/root/sub'',
      item_kind = CollectionKind, checksum = [], metadata = [], writable = True\<rparr>"

definition example_root :: irods_item where
  "example_root =
     \<lparr>item_name = ''root'', item_id = 1, item_path = ''/zone/home/root'',
      item_kind = CollectionKind, checksum = [], metadata = [], writable = True\<rparr>"

section \<open>What iteration and membership compute\<close>

lemma iter_loop_None: "iter_loop None es = map Entry es"
  by (induction es) simp_all

lemma iter_loop_Some:
  "iter_loop (Some pat) es = map Entry (filter (\<lambda>e. \<not> re_match pat (avu_name e)) es)"
  by (induction es) simp_all

lemma iter_Some: "blacklist m = Some pat \<Longrightarrow> iter m = map Entry (visible pat (item m))"
  by (simp add: iter_def iter_loop_Some visible_def metadata_items_def)

lemma iter_None:
  "blacklist m = None \<Longrightarrow> iter m = Items (metadata (item m)) # map Entry (metadata (item m))"
  by (simp add: iter_def iter_loop_None metadata_items_def)

lemma contains_loop_triple:
  "contains_loop (map Entry es) [Some k, Some v, u] =
     Inr (\<exists>e\<in>set es. avu_name e = k \<and> avu_value e = v \<and> (u = None \<or> avu_units e = u))"
  by (induction es) auto

lemma contains_loop_pair:
  "contains_loop (map Entry es) [Some k, Some v] =
     Inr (\<exists>e\<in>set es. avu_name e = k \<and> avu_value e = v)"
  by (induction es) auto

lemma contains_None:
  "blacklist m = None \<Longrightarrow> val \<noteq> [] \<Longrightarrow> contains m val = Inl AttributeError"
  by (cases val) (auto simp: contains_def iter_None split: prod.splits)

lemma contains_triple:
  "blacklist m = Some pat \<Longrightarrow>
   contains m [Some k, Some v, u] =
     Inr (\<exists>e\<in>set (visible pat (item m)).
            avu_name e = k \<and> avu_value e = v \<and> (u = None \<or> avu_units e = u))"
  by (simp add: contains_def iter_Some contains_loop_triple)

lemma contains_pair:
  "blacklist m = Some pat \<Longrightarrow>
   contains m [Some k, Some v] =
     Inr (\<exists>e\<in>set (visible pat (item m)). avu_name e = k \<and> avu_value e = v)"
  by (simp add: contains_def iter_Some contains_loop_pair)

text \<open>
  The pattern \<^verbatim>\<open>^org_*\<close> asks for \<^verbatim>\<open>org\<close> and then for any number of underscores, none
  included: it matches every name that begins with \<^verbatim>\<open>org\<close>.
\<close>

lemma default_blacklist_matches: "re_match default_blacklist s \<longleftrightarrow> prefix ''org'' s"
proof (cases s)
  case Nil
  then show ?thesis by (simp add: re_match_def default_blacklist_def)
next
  case s1: (Cons a s1)
  show ?thesis
  proof (cases s1)
    case Nil
    with s1 show ?thesis by (simp add: re_match_def default_blacklist_def)
  next
    case s2: (Cons b s2)
    show ?thesis
    proof (cases s2)
      case Nil
      with s1 s2 show ?thesis by (simp add: re_match_def default_blacklist_def)
    next
      case s3: (Cons c s3)
      with s1 s2 show ?thesis
        by (cases s3) (auto simp: re_match_def default_blacklist_def)
    qed
  qed
qed

section \<open>What the catalogue removes\<close>

lemma same_avu_key: "same_avu k v u e \<longleftrightarrow> avu_key e = (k, v, stored_units u)"
  by (auto simp: same_avu_def avu_key_def)

lemma remove_first_filter_other:
  "(\<And>e. P e \<Longrightarrow> Q e) \<Longrightarrow> filter (\<lambda>e. \<not> Q e) (remove_first P xs) = filter (\<lambda>e. \<not> Q e) xs"
  by (induction xs) auto

lemma remove_first_mset:
  "list_ex P xs \<Longrightarrow> (\<And>e. P e \<Longrightarrow> Q e \<and> f e = c) \<Longrightarrow>
     add_mset c (mset (map f (filter Q (remove_first P xs)))) = mset (map f (filter Q xs))"
  by (induction xs) auto

lemma remove_first_append:
  "list_ex P xs \<Longrightarrow> remove_first P (xs @ ys) = remove_first P xs @ ys"
  by (induction xs) auto

text \<open>
  The loop of \<^verbatim>\<open>delete\<close> over the entries of a key, each of them meeting the condition:
  one entry of the key leaves the catalogue at every step, and none is left at the end.
\<close>

lemma delete_loop_removes_key:
  "writable it \<Longrightarrow>
   mset (map avu_key ms) = mset (map avu_key (filter (\<lambda>e. avu_name e = k) (metadata it))) \<Longrightarrow>
   (\<And>m. m \<in> set ms \<Longrightarrow> delete_cond val un m) \<Longrightarrow>
   delete_loop it ms val un =
     (None, it\<lparr>metadata := filter (\<lambda>e. avu_name e \<noteq> k) (metadata it)\<rparr>)"
proof (induction ms arbitrary: it)
  case Nil
  then have "filter (\<lambda>e. avu_name e = k) (metadata it) = []" by simp
  then have "filter (\<lambda>e. avu_name e \<noteq> k) (metadata it) = metadata it"
    by (simp add: filter_empty_conv)
  then show ?case by simp
next
  case (Cons m ms)
  let ?es = "metadata it"
  let ?P = "same_avu (avu_name m) (avu_value m) (avu_units m)"
  have "avu_key m \<in># mset (map avu_key (filter (\<lambda>e. avu_name e = k) ?es))"
    using Cons.prems(2) by (metis list.set_intros(1) list.simps(9) set_mset_mset)
  then obtain e where e: "e \<in> set ?es" "avu_name e = k" "avu_key e = avu_key m"
    by auto
  then have nm: "avu_name m = k" by (simp add: avu_key_def)
  have ex: "list_ex ?P ?es"
    using e by (auto simp: list_ex_iff same_avu_key avu_key_def)
  have P: "\<And>x. ?P x \<Longrightarrow> avu_name x = k \<and> avu_key x = avu_key m"
    using nm by (auto simp: same_avu_key avu_key_def)
  let ?it' = "it\<lparr>metadata := remove_first ?P ?es\<rparr>"
  have rm: "metadata_remove_meta it m = (None, ?it')"
    using Cons.prems(1) ex by (simp add: metadata_remove_meta_def metadata_remove_def)
  have "add_mset (avu_key m)
          (mset (map avu_key (filter (\<lambda>e. avu_name e = k) (remove_first ?P ?es))))
        = mset (map avu_key (filter (\<lambda>e. avu_name e = k) ?es))"
    by (rule remove_first_mset [OF ex]) (use P in auto)
  also have "\<dots> = add_mset (avu_key m) (mset (map avu_key ms))"
    using Cons.prems(2) by simp
  finally have inv: "mset (map avu_key ms)
      = mset (map avu_key (filter (\<lambda>e. avu_name e = k) (metadata ?it')))"
    by simp
  have other: "filter (\<lambda>e. avu_name e \<noteq> k) (remove_first ?P ?es)
                 = filter (\<lambda>e. avu_name e \<noteq> k) ?es"
    by (rule remove_first_filter_other) (use P in auto)
  have "delete_loop ?it' ms val un
          = (None, ?it'\<lparr>metadata := filter (\<lambda>e. avu_name e \<noteq> k) (metadata ?it')\<rparr>)"
    by (rule Cons.IH) (use Cons.prems inv in auto)
  then show ?case
    using rm Cons.prems(3) other by simp
qed

lemma delete_key_all:
  assumes "writable (item m)" and "val = Ellipsis \<or> un = Ellipsis"
    and "\<And>e. e \<in> set (metadata (item m)) \<Longrightarrow> avu_name e = key \<Longrightarrow> delete_cond val un e"
  shows "delete m key val un =
         (None, m\<lparr>item := (item m)\<lparr>metadata :=
                    filter (\<lambda>e. avu_name e \<noteq> key) (metadata (item m))\<rparr>\<rparr>)"
proof -
  have "delete_loop (item m) (metadata_get_all (item m) key) val un =
          (None, (item m)\<lparr>metadata := filter (\<lambda>e. avu_name e \<noteq> key) (metadata (item m))\<rparr>)"
    by (rule delete_loop_removes_key) (use assms in \<open>auto simp: metadata_get_all_def\<close>)
  moreover have "delete_body (item m) key val un
                   = delete_loop (item m) (metadata_get_all (item m) key) val un"
    using assms(2) by (auto simp: delete_body_def split: arg.splits)
  ultimately show ?thesis
    by (simp add: delete_def)
qed

section \<open>What add does\<close>

lemma add_after_contains:
  assumes "contains m [Some k, Some v, u] = Inr b" and "blacklist m = Some pat"
  shows "add m k v u =
     (if b then (Some (ValueError AlreadyPresent), m)
      else if re_match pat k then (Some (ValueError KeyBlacklisted), m)
      else if \<not> writable (item m) then (Some PermissionError, m)
      else (None, m\<lparr>item := (item m)\<lparr>metadata := metadata (item m) @
              [\<lparr>avu_name = k, avu_value = v, avu_units = stored_units u\<rparr>]\<rparr>\<rparr>))"
  using assms by (cases b) (simp_all add: add_def metadata_add_def)

lemma add_pattern:
  assumes "blacklist m = Some pat"
  shows "add m k v u =
     (if \<exists>e\<in>set (visible pat (item m)).
           avu_name e = k \<and> avu_value e = v \<and> (u = None \<or> avu_units e = u)
      then (Some (ValueError AlreadyPresent), m)
      else if re_match pat k then (Some (ValueError KeyBlacklisted), m)
      else if \<not> writable (item m) then (Some PermissionError, m)
      else (None, m\<lparr>item := (item m)\<lparr>metadata := metadata (item m) @
              [\<lparr>avu_name = k, avu_value = v, avu_units = stored_units u\<rparr>]\<rparr>\<rparr>))"
  by (rule add_after_contains [OF contains_triple [OF assms] assms])

lemma add_failure_unchanged: "add m k v u = (Some e, m') \<Longrightarrow> m' = m"
  by (auto simp: add_def metadata_add_def split: sum.splits bool.splits option.splits if_splits)

section \<open>Iterating a view without blacklist\<close>

text \<open>
  C5. A view constructed with a \<^verbatim>\<open>None\<close> blacklist should yield exactly the entries of the
  item, one per step, and its length should be their number. The generator yields one
  object more: for an item with the single entry \<open>(A, 1, None)\<close> it yields the list of
  all entries first and the entry after it, and the length of the view is 2.
\<close>

theorem iter_None_blacklist_yields_list_first:
  "iter \<lparr>item = example_item [AVU ''A'' ''1'' None] True, blacklist = None\<rparr>
     = [Items [AVU ''A'' ''1'' None], Entry (AVU ''A'' ''1'' None)]
   \<and> len \<lparr>item = example_item [AVU ''A'' ''1'' None] True, blacklist = None\<rparr> = 2"
  by (simp add: len_def iter_def metadata_items_def example_item_def)

text \<open>In general the view is one longer than the list of the item's entries.\<close>

lemma len_None_blacklist:
  "len \<lparr>item = it, blacklist = None\<rparr> = Suc (length (metadata it))"
  by (simp add: len_def iter_None)

section \<open>The default blacklist\<close>

text \<open>
  C6. Under the default blacklist an entry should be left out of iteration, of the
  metadata list of \<^verbatim>\<open>to_dict\<close> and of what \<^verbatim>\<open>clear\<close> deletes exactly when its name begins
  with \<^verbatim>\<open>org_\<close>. The default pattern matches the name \<^verbatim>\<open>organism\<close>, which does not begin
  with \<^verbatim>\<open>org_\<close>: an entry of that name is not yielded, not exported and not cleared.
\<close>

theorem default_blacklist_hides_org_names:
  "re_match default_blacklist ''organism''
   \<and> \<not> prefix ''org_'' ''organism''
   \<and> iter (example_view [AVU ''organism'' ''human'' None] True) = []
   \<and> to_dict (example_view [AVU ''organism'' ''human'' None] True) None =
       Inr \<lparr>d_name = ''obj'', d_irods_id = 1, d_checksum = Some ''sha2:abc'', d_metadata = []\<rparr>
   \<and> clear (example_view [AVU ''organism'' ''human'' None] True) =
       (None, example_view [AVU ''organism'' ''human'' None] True)"
  by (simp add: default_blacklist_matches iter_Some visible_def to_dict_def clear_def
      example_view_def example_item_def AVU_def)

section \<open>Adding an entry\<close>

text \<open>
  C2. \<^verbatim>\<open>add\<close> should fail as a duplicate only when the very triplet of key, value and
  units is among the entries shown. With the entry \<open>(A, 1, kg)\<close> on the item,
  \<^verbatim>\<open>add("A", "1")\<close>, whose units are \<^verbatim>\<open>None\<close>, ends in the \<^verbatim>\<open>ValueError\<close> of a duplicate,
  although the item has no entry \<open>(A, 1, None)\<close>: the membership test takes \<^verbatim>\<open>None\<close> for
  any units.
\<close>

theorem add_without_units_refuses_other_units:
  "add (example_view [AVU ''A'' ''1'' (Some ''kg'')] True) ''A'' ''1'' None
     = (Some (ValueError AlreadyPresent), example_view [AVU ''A'' ''1'' (Some ''kg'')] True)
   \<and> AVU ''A'' ''1'' None \<notin> set (metadata (item (example_view [AVU ''A'' ''1'' (Some ''kg'')] True)))"
  by (simp add: add_pattern [where pat = default_blacklist] visible_def default_blacklist_matches
      example_view_def example_item_def AVU_def)

text \<open>
  When \<^verbatim>\<open>add\<close> answers with the error of a duplicate, for a view with a pattern as
  blacklist: \<^verbatim>\<open>None\<close> as units stands for any units.
\<close>

lemma add_duplicate_iff:
  assumes "blacklist m = Some pat"
  shows "fst (add m k v u) = Some (ValueError AlreadyPresent) \<longleftrightarrow>
           (\<exists>e\<in>set (visible pat (item m)).
              avu_name e = k \<and> avu_value e = v \<and> (u = None \<or> avu_units e = u))"
  by (simp add: add_pattern [OF assms])

section \<open>Deleting entries\<close>

text \<open>
  C4. \<^verbatim>\<open>delete\<close> should end in the error of an entry not found whenever nothing is there
  to delete, at each of its three granularities. With a wildcard it returns instead:
  \<^verbatim>\<open>delete("A")\<close> on an item without entries and \<^verbatim>\<open>delete("A", "2")\<close> on an item whose only
  entry is \<open>(A, 1, kg)\<close> return and change nothing. Only the exact triplet,
  \<^verbatim>\<open>delete("A", "2", "kg")\<close>, ends in \<^verbatim>\<open>KeyError\<close>.
\<close>

theorem delete_wildcard_of_nothing_returns:
  "delete (example_view [] True) ''A'' Ellipsis Ellipsis = (None, example_view [] True)
   \<and> delete (example_view [AVU ''A'' ''1'' (Some ''kg'')] True) ''A'' (Given ''2'') Ellipsis
       = (None, example_view [AVU ''A'' ''1'' (Some ''kg'')] True)
   \<and> delete (example_view [AVU ''A'' ''1'' (Some ''kg'')] True) ''A'' (Given ''2'') (Given (Some ''kg''))
       = (Some KeyError, example_view [AVU ''A'' ''1'' (Some ''kg'')] True)"
  by (simp add: delete_def delete_body_def metadata_get_all_def delete_cond_def
      metadata_remove_def same_avu_def stored_units_def
      example_view_def example_item_def AVU_def)

lemma delete_loop_value_wildcard:
  "delete_loop it ms Ellipsis (Given u) = delete_loop it ms Ellipsis Ellipsis"
  by (induction ms arbitrary: it) (auto simp: delete_cond_def split: prod.splits option.splits)

text \<open>
  C10. \<^verbatim>\<open>delete(key, units=u)\<close>, the value left at its wildcard, does what \<^verbatim>\<open>delete(key)\<close>
  does, whatever \<open>u\<close> is; and on an item the session may change it removes every entry
  of the key, whatever its value and units.
\<close>

theorem delete_value_wildcard_ignores_units:
  "delete m key Ellipsis (Given u) = delete m key Ellipsis Ellipsis
   \<and> (writable (item m) \<longrightarrow>
        delete m key Ellipsis (Given u) =
          (None, m\<lparr>item := (item m)\<lparr>metadata :=
                     filter (\<lambda>e. avu_name e \<noteq> key) (metadata (item m))\<rparr>\<rparr>))"
proof -
  have "delete m key Ellipsis (Given u) = delete m key Ellipsis Ellipsis"
    by (simp add: delete_def delete_body_def delete_loop_value_wildcard)
  moreover have "writable (item m) \<Longrightarrow> delete m key Ellipsis Ellipsis =
          (None, m\<lparr>item := (item m)\<lparr>metadata :=
                     filter (\<lambda>e. avu_name e \<noteq> key) (metadata (item m))\<rparr>\<rparr>)"
    by (rule delete_key_all) (simp_all add: delete_cond_def)
  ultimately show ?thesis by simp
qed

theorem delete_value_wildcard_ignores_units_witness:
  "delete (example_view [AVU ''A'' ''1'' (Some ''kg''), AVU ''B'' ''5'' None, AVU ''A'' ''2'' (Some ''g'')] True)
      ''A'' Ellipsis (Given (Some ''kg''))
     = delete (example_view [AVU ''A'' ''1'' (Some ''kg''), AVU ''B'' ''5'' None, AVU ''A'' ''2'' (Some ''g'')] True)
      ''A'' Ellipsis Ellipsis
   \<and> writable (item (example_view [AVU ''A'' ''1'' (Some ''kg''), AVU ''B'' ''5'' None, AVU ''A'' ''2'' (Some ''g'')] True))
   \<and> delete (example_view [AVU ''A'' ''1'' (Some ''kg''), AVU ''B'' ''5'' None, AVU ''A'' ''2'' (Some ''g'')] True)
      ''A'' Ellipsis (Given (Some ''kg''))
     = (None, example_view [AVU ''B'' ''5'' None] True)"
  using delete_value_wildcard_ignores_units
    [of "example_view [AVU ''A'' ''1'' (Some ''kg''), AVU ''B'' ''5'' None, AVU ''A'' ''2'' (Some ''g'')] True"
        "''A''" "Some ''kg''"]
  by (auto simp: example_view_def example_item_def AVU_def)

section \<open>Setting a key\<close>

text \<open>
  For a view with a pattern as blacklist, a key the pattern does not match and an item
  the session may change, \<^verbatim>\<open>set(key, value, units)\<close> removes every entry of the key,
  whatever its value and units, and adds the new triplet: afterwards the entries of the
  key are the one entry \<open>(key, value, units)\<close> (empty units being no units), and the
  entries of the other keys are what they were.
\<close>

lemma set_replaces_every_entry_of_key:
  assumes "blacklist m = Some pat" and "\<not> re_match pat key" and "writable (item m)"
  shows "set_meta m key val un =
           (None, m\<lparr>item := (item m)\<lparr>metadata :=
              filter (\<lambda>e. avu_name e \<noteq> key) (metadata (item m))
              @ [\<lparr>avu_name = key, avu_value = val, avu_units = stored_units un\<rparr>]\<rparr>\<rparr>)
         \<and> filter (\<lambda>e. avu_name e = key) (metadata (item (snd (set_meta m key val un))))
             = [\<lparr>avu_name = key, avu_value = val, avu_units = stored_units un\<rparr>]
         \<and> filter (\<lambda>e. avu_name e \<noteq> key) (metadata (item (snd (set_meta m key val un))))
             = filter (\<lambda>e. avu_name e \<noteq> key) (metadata (item m))"
proof -
  let ?rest = "filter (\<lambda>e. avu_name e \<noteq> key) (metadata (item m))"
  let ?m1 = "m\<lparr>item := (item m)\<lparr>metadata := ?rest\<rparr>\<rparr>"
  have d: "delete m key Ellipsis Ellipsis = (None, ?m1)"
    by (rule delete_key_all) (use assms in \<open>simp_all add: delete_cond_def\<close>)
  have "add ?m1 key val un =
          (None, ?m1\<lparr>item := (item ?m1)\<lparr>metadata := metadata (item ?m1) @
              [\<lparr>avu_name = key, avu_value = val, avu_units = stored_units un\<rparr>]\<rparr>\<rparr>)"
    using assms by (simp add: add_pattern [where pat = pat] visible_def)
  with d have s: "set_meta m key val un =
           (None, m\<lparr>item := (item m)\<lparr>metadata := ?rest
              @ [\<lparr>avu_name = key, avu_value = val, avu_units = stored_units un\<rparr>]\<rparr>\<rparr>)"
    by (simp add: set_meta_def)
  have "filter (\<lambda>e. avu_name e = key) ?rest = []"
    by (simp add: filter_empty_conv)
  with s show ?thesis by simp
qed

lemma set_replaces_every_entry_of_key_example:
  "blacklist (example_view [AVU ''A'' ''1'' None, AVU ''B'' ''5'' None, AVU ''A'' ''2'' (Some ''kg'')] True)
     = Some default_blacklist
   \<and> \<not> re_match default_blacklist ''A''
   \<and> writable (item (example_view [AVU ''A'' ''1'' None, AVU ''B'' ''5'' None, AVU ''A'' ''2'' (Some ''kg'')] True))
   \<and> set_meta (example_view [AVU ''A'' ''1'' None, AVU ''B'' ''5'' None, AVU ''A'' ''2'' (Some ''kg'')] True)
       ''A'' ''3'' None
     = (None, example_view [AVU ''B'' ''5'' None, AVU ''A'' ''3'' None] True)"
  using set_replaces_every_entry_of_key
    [of "example_view [AVU ''A'' ''1'' None, AVU ''B'' ''5'' None, AVU ''A'' ''2'' (Some ''kg'')] True"
        default_blacklist "''A''" "''3''" None]
  by (simp add: example_view_def example_item_def AVU_def default_blacklist_matches stored_units_def)

text \<open>
  A view without blacklist: \<^verbatim>\<open>add\<close> tests \<^verbatim>\<open>(key, value, units) in self\<close>, the iteration
  yields the list of all entries first, and reading the name of that list is an
  \<^verbatim>\<open>AttributeError\<close>. \<^verbatim>\<open>set\<close> has deleted the entries of the key by then.
\<close>

lemma add_None_blacklist:
  "blacklist m = None \<Longrightarrow> add m key val un = (Some AttributeError, m)"
  by (simp add: add_def contains_None)

lemma set_meta_None_blacklist:
  assumes "blacklist m = None" and "writable (item m)"
  shows "set_meta m key val un =
           (Some AttributeError,
            m\<lparr>item := (item m)\<lparr>metadata :=
                  filter (\<lambda>e. avu_name e \<noteq> key) (metadata (item m))\<rparr>\<rparr>)"
proof -
  let ?m1 = "m\<lparr>item := (item m)\<lparr>metadata :=
                  filter (\<lambda>e. avu_name e \<noteq> key) (metadata (item m))\<rparr>\<rparr>"
  have d: "delete m key Ellipsis Ellipsis = (None, ?m1)"
    by (rule delete_key_all) (use assms in \<open>simp_all add: delete_cond_def\<close>)
  have "add ?m1 key val un = (Some AttributeError, ?m1)"
    by (rule add_None_blacklist) (use assms in simp)
  with d show ?thesis by (simp add: set_meta_def)
qed

text \<open>
  C7. \<^verbatim>\<open>set(key, value, units)\<close> should, for every view and every key the blacklist does
  not match, leave exactly the one entry \<open>(key, value, units)\<close> under the key. On a view
  constructed with a \<^verbatim>\<open>None\<close> blacklist, which matches no key, and the entries
  \<open>(A, 1, None)\<close>, \<open>(B, 5, None)\<close> and \<open>(A, 2, kg)\<close>, \<^verbatim>\<open>set("A", "3")\<close> deletes both entries
  of \<open>A\<close> and then ends in \<^verbatim>\<open>AttributeError\<close>: no entry of \<open>A\<close> is left on the item.
\<close>

theorem set_without_blacklist_leaves_key_empty:
  "set_meta \<lparr>item = example_item [AVU ''A'' ''1'' None, AVU ''B'' ''5'' None,
                                   AVU ''A'' ''2'' (Some ''kg'')] True,
             blacklist = None\<rparr> ''A'' ''3'' None
     = (Some AttributeError, \<lparr>item = example_item [AVU ''B'' ''5'' None] True, blacklist = None\<rparr>)
   \<and> filter (\<lambda>e. avu_name e = ''A'')
        (metadata (item (snd (set_meta
           \<lparr>item = example_item [AVU ''A'' ''1'' None, AVU ''B'' ''5'' None,
                                 AVU ''A'' ''2'' (Some ''kg'')] True,
            blacklist = None\<rparr> ''A'' ''3'' None)))) = []"
proof -
  let ?m = "\<lparr>item = example_item [AVU ''A'' ''1'' None, AVU ''B'' ''5'' None,
                                   AVU ''A'' ''2'' (Some ''kg'')] True,
             blacklist = None\<rparr>"
  have "set_meta ?m ''A'' ''3'' None
     = (Some AttributeError, \<lparr>item = example_item [AVU ''B'' ''5'' None] True, blacklist = None\<rparr>)"
    by (subst set_meta_None_blacklist) (simp_all add: example_item_def AVU_def)
  then show ?thesis by (simp add: example_item_def AVU_def)
qed

section \<open>Updating an entry\<close>

lemma update_add_failure_unchanged:
  "update_add m key val un new_value new_units = (Some e, m') \<Longrightarrow> m' = m"
  by (auto simp: update_add_def split: option.splits dest: add_failure_unchanged)

lemma case_bool_None:
  "(case b of True \<Rightarrow> x | False \<Rightarrow> y) = (if b then x else y)"
  by (cases b) simp_all

lemma update_check_pattern:
  assumes "blacklist m = Some pat"
  shows "update_check m key val un new_value new_units =
     (if new_value = None \<and> new_units = None then Some (ValueError NoNewValueOrUnit)
      else if new_value = Some [] then Some (ValueError EmptyNewValue)
      else if \<exists>x\<in>set (visible pat (item m)).
                 avu_name x = key \<and> avu_value x = val \<and> (un = None \<or> avu_units x = un)
      then None else Some (ValueError DoesNotExist))"
proof (cases "un = None")
  case True
  then show ?thesis
    unfolding update_check_def contains_pair [OF assms] by (auto simp: case_bool_None)
next
  case False
  then show ?thesis
    unfolding update_check_def contains_triple [OF assms] by (auto simp: case_bool_None)
qed

lemma update_check_passed:
  assumes "update_check m key val un new_value new_units = None"
  shows "\<exists>x\<in>set (metadata (item m)).
           avu_name x = key \<and> avu_value x = val \<and> (un = None \<or> avu_units x = un)"
proof (cases "blacklist m")
  case None
  then have "contains m [Some key, Some val] = Inl AttributeError"
    and "contains m [Some key, Some val, un] = Inl AttributeError"
    by (simp_all add: contains_None)
  with assms show ?thesis
    by (simp add: update_check_def split: if_splits)
next
  case (Some pat)
  from assms have "\<exists>x\<in>set (visible pat (item m)).
                 avu_name x = key \<and> avu_value x = val \<and> (un = None \<or> avu_units x = un)"
    unfolding update_check_pattern [OF Some] by (simp split: if_splits)
  then show ?thesis by (auto simp: visible_def)
qed

text \<open>
  C9. \<^verbatim>\<open>update\<close> adds the replacement before it deletes the original: when the checks of
  the arguments have passed and the add of the replacement fails, for whatever reason,
  \<^verbatim>\<open>update\<close> ends with that failure, the view is what it was before the call, and the
  entry that was to be updated is still on the item.
\<close>

theorem update_add_failure_keeps_original:
  assumes "update_check m key val un new_value new_units = None"
    and "fst (update_add m key val un new_value new_units) = Some e"
  shows "update m key val un new_value new_units = (Some e, m)
         \<and> iter (snd (update m key val un new_value new_units)) = iter m
         \<and> (\<exists>x\<in>set (metadata (item (snd (update m key val un new_value new_units)))).
               avu_name x = key \<and> avu_value x = val \<and> (un = None \<or> avu_units x = un))"
proof -
  obtain m' where a: "update_add m key val un new_value new_units = (Some e, m')"
    using assms(2) by (cases "update_add m key val un new_value new_units") auto
  then have "m' = m" by (rule update_add_failure_unchanged)
  with a assms(1) have u: "update m key val un new_value new_units = (Some e, m)"
    by (simp add: update_def)
  with update_check_passed [OF assms(1)] show ?thesis by simp
qed

theorem update_add_failure_keeps_original_witness:
  "update_check (example_view [AVU ''A'' ''1'' None, AVU ''A'' ''2'' (Some ''kg'')] True)
      ''A'' ''1'' None (Some ''2'') None = None
   \<and> fst (update_add (example_view [AVU ''A'' ''1'' None, AVU ''A'' ''2'' (Some ''kg'')] True)
      ''A'' ''1'' None (Some ''2'') None) = Some (ValueError AlreadyPresent)
   \<and> update (example_view [AVU ''A'' ''1'' None, AVU ''A'' ''2'' (Some ''kg'')] True)
      ''A'' ''1'' None (Some ''2'') None
     = (Some (ValueError AlreadyPresent),
        example_view [AVU ''A'' ''1'' None, AVU ''A'' ''2'' (Some ''kg'')] True)"
proof -
  let ?m = "example_view [AVU ''A'' ''1'' None, AVU ''A'' ''2'' (Some ''kg'')] True"
  have b: "blacklist ?m = Some default_blacklist" by (simp add: example_view_def)
  have c: "update_check ?m ''A'' ''1'' None (Some ''2'') None = None"
    unfolding update_check_pattern [OF b]
    by (simp add: visible_def default_blacklist_matches example_view_def example_item_def AVU_def)
  have a: "fst (update_add ?m ''A'' ''1'' None (Some ''2'') None) = Some (ValueError AlreadyPresent)"
    unfolding update_add_def add_pattern [OF b]
    by (simp add: visible_def default_blacklist_matches example_view_def example_item_def AVU_def)
  from update_add_failure_keeps_original [OF c a] c a show ?thesis by simp
qed

lemma same_avu_empty_units: "same_avu k v (Some []) = same_avu k v None"
  by (auto simp: same_avu_def stored_units_def fun_eq_iff)

text \<open>
  C3. \<^verbatim>\<open>update(key, value, new_value=new_value)\<close>, the units left out, should replace an
  entry \<open>(key, value, u_old)\<close> by \<open>(key, new_value, u_old)\<close> and leave the other entries as
  they are. With the entry \<open>(A, 1, kg)\<close> on the item, \<^verbatim>\<open>update("A", "1", new_value="2")\<close>
  passes the check of existence, adds \<open>(A, 2, None)\<close>, a replacement without the units of
  the old entry, and then fails to delete \<open>(A, 1, '')\<close>, which is not there: the call ends
  in \<^verbatim>\<open>KeyError\<close>, the old entry is still on the item and no entry \<open>(A, 2, kg)\<close> is.
\<close>

theorem update_without_units_drops_units:
  "update (example_view [AVU ''A'' ''1'' (Some ''kg'')] True) ''A'' ''1'' None (Some ''2'') None
     = (Some KeyError, example_view [AVU ''A'' ''1'' (Some ''kg''), AVU ''A'' ''2'' None] True)
   \<and> AVU ''A'' ''2'' (Some ''kg'')
       \<notin> set (metadata (item (snd (update (example_view [AVU ''A'' ''1'' (Some ''kg'')] True)
                                      ''A'' ''1'' None (Some ''2'') None))))
   \<and> AVU ''A'' ''1'' (Some ''kg'')
       \<in> set (metadata (item (snd (update (example_view [AVU ''A'' ''1'' (Some ''kg'')] True)
                                      ''A'' ''1'' None (Some ''2'') None))))"
proof -
  let ?m = "example_view [AVU ''A'' ''1'' (Some ''kg'')] True"
  have b: "blacklist ?m = Some default_blacklist" by (simp add: example_view_def)
  have c: "update_check ?m ''A'' ''1'' None (Some ''2'') None = None"
    unfolding update_check_pattern [OF b]
    by (simp add: visible_def default_blacklist_matches example_view_def example_item_def AVU_def)
  have a: "update_add ?m ''A'' ''1'' None (Some ''2'') None
             = (None, example_view [AVU ''A'' ''1'' (Some ''kg''), AVU ''A'' ''2'' None] True)"
    unfolding update_add_def add_pattern [OF b]
    by (simp add: visible_def default_blacklist_matches example_view_def example_item_def AVU_def
        stored_units_def)
  have d: "update_delete (example_view [AVU ''A'' ''1'' (Some ''kg''), AVU ''A'' ''2'' None] True)
             ''A'' ''1'' None
           = (Some KeyError, example_view [AVU ''A'' ''1'' (Some ''kg''), AVU ''A'' ''2'' None] True)"
    by (simp add: update_delete_def truthy_def delete_def delete_body_def metadata_remove_def
        same_avu_def stored_units_def example_view_def example_item_def AVU_def)
  have u: "update ?m ''A'' ''1'' None (Some ''2'') None
     = (Some KeyError, example_view [AVU ''A'' ''1'' (Some ''kg''), AVU ''A'' ''2'' None] True)"
    by (simp add: update_def c a d)
  show ?thesis
    unfolding u by (simp add: example_view_def example_item_def AVU_def)
qed

text \<open>
  The same call with the units of the entry passed keeps them: \<open>(A, 1, kg)\<close> becomes
  \<open>(A, 2, kg)\<close>.
\<close>

lemma update_with_units_keeps_units:
  "update (example_view [AVU ''A'' ''1'' (Some ''kg'')] True) ''A'' ''1'' (Some ''kg'') (Some ''2'') None
     = (None, example_view [AVU ''A'' ''2'' (Some ''kg'')] True)"
proof -
  let ?m = "example_view [AVU ''A'' ''1'' (Some ''kg'')] True"
  have b: "blacklist ?m = Some default_blacklist" by (simp add: example_view_def)
  have c: "update_check ?m ''A'' ''1'' (Some ''kg'') (Some ''2'') None = None"
    unfolding update_check_pattern [OF b]
    by (simp add: visible_def default_blacklist_matches example_view_def example_item_def AVU_def)
  have a: "update_add ?m ''A'' ''1'' (Some ''kg'') (Some ''2'') None
             = (None, example_view [AVU ''A'' ''1'' (Some ''kg''), AVU ''A'' ''2'' (Some ''kg'')] True)"
    unfolding update_add_def add_pattern [OF b]
    by (simp add: visible_def default_blacklist_matches example_view_def example_item_def AVU_def
        stored_units_def)
  have d: "update_delete (example_view [AVU ''A'' ''1'' (Some ''kg''), AVU ''A'' ''2'' (Some ''kg'')] True)
             ''A'' ''1'' (Some ''kg'')
           = (None, example_view [AVU ''A'' ''2'' (Some ''kg'')] True)"
    by (simp add: update_delete_def truthy_def delete_def delete_body_def metadata_remove_def
        same_avu_def stored_units_def example_view_def example_item_def AVU_def)
  show ?thesis by (simp add: update_def c a d)
qed

text \<open>
  With the units left out the call does what it should for an entry \<open>(key, value)\<close> that
  has no units, given a key the blacklist does not match, an item the session may
  change, and a new value that is not empty and that no entry of the key carries yet:
  the entry \<open>(key, new_value)\<close> without units takes the place of the original one, and
  every other entry is what it was.
\<close>

lemma update_value_of_entry_without_units:
  assumes "blacklist m = Some pat" and "\<not> re_match pat key" and "writable (item m)"
    and "list_ex (same_avu key val None) (metadata (item m))"
    and "new_value \<noteq> []"
    and "\<not> list_ex (\<lambda>e. avu_name e = key \<and> avu_value e = new_value) (metadata (item m))"
  shows "update m key val None (Some new_value) None =
           (None, m\<lparr>item := (item m)\<lparr>metadata :=
              remove_first (same_avu key val None) (metadata (item m))
              @ [\<lparr>avu_name = key, avu_value = new_value, avu_units = None\<rparr>]\<rparr>\<rparr>)"
proof -
  let ?es = "metadata (item m)"
  let ?new = "\<lparr>avu_name = key, avu_value = new_value, avu_units = None\<rparr>"
  let ?m1 = "m\<lparr>item := (item m)\<lparr>metadata := ?es @ [?new]\<rparr>\<rparr>"
  obtain x where x: "x \<in> set ?es" "avu_name x = key" "avu_value x = val"
    using assms(4) by (auto simp: list_ex_iff same_avu_def)
  then have "x \<in> set (visible pat (item m))"
    using assms(2) by (simp add: visible_def)
  with x have c: "update_check m key val None (Some new_value) None = None"
    unfolding update_check_pattern [OF assms(1)] using assms(5) by auto
  have nodup: "\<not> (\<exists>e\<in>set (visible pat (item m)).
          avu_name e = key \<and> avu_value e = new_value \<and> (None = (None :: string option) \<or> avu_units e = None))"
    using assms(6) by (auto simp: list_ex_iff visible_def)
  have a: "update_add m key val None (Some new_value) None = (None, ?m1)"
    using assms(1,2,3) nodup
    by (simp add: update_add_def add_pattern [OF assms(1)] stored_units_def del: bex_simps)
  have "metadata_remove (item ?m1) key val (Some []) =
          (None, (item ?m1)\<lparr>metadata := remove_first (same_avu key val None) ?es @ [?new]\<rparr>)"
    using assms(3,4)
    by (simp add: metadata_remove_def same_avu_empty_units remove_first_append)
  then have d: "update_delete ?m1 key val None =
          (None, m\<lparr>item := (item m)\<lparr>metadata := remove_first (same_avu key val None) ?es @ [?new]\<rparr>\<rparr>)"
    by (simp add: update_delete_def truthy_def delete_def delete_body_def)
  show ?thesis
    by (simp add: update_def c a d)
qed

lemma update_value_of_entry_without_units_example:
  "blacklist (example_view [AVU ''A'' ''1'' None, AVU ''B'' ''5'' (Some ''kg'')] True) = Some default_blacklist
   \<and> \<not> re_match default_blacklist ''A''
   \<and> writable (item (example_view [AVU ''A'' ''1'' None, AVU ''B'' ''5'' (Some ''kg'')] True))
   \<and> list_ex (same_avu ''A'' ''1'' None)
        (metadata (item (example_view [AVU ''A'' ''1'' None, AVU ''B'' ''5'' (Some ''kg'')] True)))
   \<and> ''2'' \<noteq> []
   \<and> \<not> list_ex (\<lambda>e. avu_name e = ''A'' \<and> avu_value e = ''2'')
        (metadata (item (example_view [AVU ''A'' ''1'' None, AVU ''B'' ''5'' (Some ''kg'')] True)))
   \<and> update (example_view [AVU ''A'' ''1'' None, AVU ''B'' ''5'' (Some ''kg'')] True)
        ''A'' ''1'' None (Some ''2'') None
      = (None, example_view [AVU ''B'' ''5'' (Some ''kg''), AVU ''A'' ''2'' None] True)"
  using update_value_of_entry_without_units
    [of "example_view [AVU ''A'' ''1'' None, AVU ''B'' ''5'' (Some ''kg'')] True"
        default_blacklist "''A''" "''1''" "''2''"]
  by (simp add: example_view_def example_item_def AVU_def default_blacklist_matches
      same_avu_def stored_units_def)

section \<open>Restoring from a dictionary\<close>

text \<open>
  C1, as stated: a blacklist violation of \<^verbatim>\<open>add\<close> should leave \<^verbatim>\<open>from_dict\<close> at once. It
  does not. \<^verbatim>\<open>add("org_x", "1")\<close> ends in the \<^verbatim>\<open>ValueError\<close> of a blacklisted key, yet
  \<^verbatim>\<open>from_dict\<close> of the triplets \<open>(org_x, 1, None)\<close> and \<open>(A, 1, None)\<close> returns, the second
  triplet added.
\<close>

theorem from_dict_swallows_blacklist_violation:
  "add (example_view [] True) ''org_x'' ''1'' None
     = (Some (ValueError KeyBlacklisted), example_view [] True)
   \<and> from_dict (example_view [] True) (example_dict [(''org_x'', ''1'', None), (''A'', ''1'', None)])
     = (None, example_view [AVU ''A'' ''1'' None] True)"
proof -
  let ?m = "example_view [] True"
  have b: "blacklist ?m = Some default_blacklist" by (simp add: example_view_def)
  have b1: "blacklist (example_view [AVU ''A'' ''1'' None] True) = Some default_blacklist" by (simp add: example_view_def)
  have 1: "add ?m ''org_x'' ''1'' None = (Some (ValueError KeyBlacklisted), ?m)"
    unfolding add_pattern [OF b]
    by (simp add: visible_def default_blacklist_matches example_view_def example_item_def)
  have 2: "add ?m ''A'' ''1'' None = (None, example_view [AVU ''A'' ''1'' None] True)"
    unfolding add_pattern [OF b]
    by (simp add: visible_def default_blacklist_matches example_view_def example_item_def
        AVU_def stored_units_def)
  show ?thesis
    by (simp add: from_dict_def example_dict_def 1 2)
qed

text \<open>
  C1, amended. For a view with a pattern as blacklist, \<^verbatim>\<open>from_dict\<close> swallows each
  \<^verbatim>\<open>ValueError\<close> of \<^verbatim>\<open>add\<close>, that of a duplicate and that of a blacklisted key alike, and
  goes on with the remaining triplets on the unchanged view; the \<^verbatim>\<open>PermissionError\<close> of a
  refused add leaves \<^verbatim>\<open>from_dict\<close> at once, whatever triplets remain.
\<close>

theorem from_dict_swallows_every_ValueError:
  assumes "blacklist m = Some pat"
  shows "fst (add m k v u) =
           (if \<exists>e\<in>set (visible pat (item m)).
                 avu_name e = k \<and> avu_value e = v \<and> (u = None \<or> avu_units e = u)
            then Some (ValueError AlreadyPresent)
            else if re_match pat k then Some (ValueError KeyBlacklisted)
            else if writable (item m) then None else Some PermissionError)
       \<and> from_dict m (md\<lparr>d_metadata := (k, v, u) # ts\<rparr>) =
           (if (\<exists>e\<in>set (visible pat (item m)).
                  avu_name e = k \<and> avu_value e = v \<and> (u = None \<or> avu_units e = u))
               \<or> re_match pat k
            then from_dict m (md\<lparr>d_metadata := ts\<rparr>)
            else if writable (item m) then from_dict (snd (add m k v u)) (md\<lparr>d_metadata := ts\<rparr>)
            else (Some PermissionError, m))"
  unfolding from_dict_def by (auto simp: add_pattern [OF assms])

theorem from_dict_swallows_every_ValueError_witness:
  "blacklist (example_view [AVU ''A'' ''1'' None] False) = Some default_blacklist
   \<and> fst (add (example_view [AVU ''A'' ''1'' None] False) ''org_x'' ''1'' None)
       = Some (ValueError KeyBlacklisted)
   \<and> from_dict (example_view [AVU ''A'' ''1'' None] False)
        (example_dict [(''org_x'', ''1'', None), (''B'', ''2'', None), (''C'', ''3'', None)])
     = from_dict (example_view [AVU ''A'' ''1'' None] False)
        (example_dict [(''B'', ''2'', None), (''C'', ''3'', None)])"
  using from_dict_swallows_every_ValueError
    [where m = "example_view [AVU ''A'' ''1'' None] False" and pat = default_blacklist
       and k = "''org_x''" and v = "''1''" and u = None and md = "example_dict []"
       and ts = "[(''B'', ''2'', None), (''C'', ''3'', None)]"]
  by (simp add: example_view_def example_item_def example_dict_def AVU_def visible_def
      default_blacklist_matches)

text \<open>
  On an item the session may not change, the restore goes past the duplicate and the
  blacklisted key and stops at the first triplet that would be added.
\<close>

lemma from_dict_stops_at_permission_denial:
  "from_dict (example_view [AVU ''A'' ''1'' None] False)
        (example_dict [(''A'', ''1'', None), (''org_x'', ''1'', None), (''B'', ''2'', None), (''C'', ''3'', None)])
   = (Some PermissionError, example_view [AVU ''A'' ''1'' None] False)"
proof -
  let ?m = "example_view [AVU ''A'' ''1'' None] False"
  have b: "blacklist ?m = Some default_blacklist" by (simp add: example_view_def)
  have 1: "add ?m ''org_x'' ''1'' None = (Some (ValueError KeyBlacklisted), ?m)"
    unfolding add_pattern [OF b]
    by (simp add: visible_def default_blacklist_matches example_view_def example_item_def AVU_def)
  have 2: "add ?m ''A'' ''1'' None = (Some (ValueError AlreadyPresent), ?m)"
    unfolding add_pattern [OF b]
    by (simp add: visible_def default_blacklist_matches example_view_def example_item_def
        AVU_def stored_units_def)
  have 3: "add ?m ''B'' ''2'' None = (Some PermissionError, ?m)"
    unfolding add_pattern [OF b]
    by (simp add: visible_def default_blacklist_matches example_view_def example_item_def
        AVU_def stored_units_def)
  show ?thesis
    by (simp add: from_dict_def example_dict_def 1 2 3)
qed

section \<open>The recursive export\<close>

lemma triplets_entries:
  "triplets (map Entry es) None = Inr (map (\<lambda>e. (avu_name e, avu_value e, avu_units e)) es)"
  by (induction es) simp_all

lemma triplets_entries_keys:
  "triplets (map Entry es) (Some ks) =
     Inr (map (\<lambda>e. (avu_name e, avu_value e, avu_units e)) (filter (\<lambda>e. avu_name e \<in> set ks) es))"
  by (induction es) simp_all

lemma to_dict_pattern:
  assumes "blacklist m = Some pat"
  shows "\<exists>d. to_dict m keys = Inr d"
  using assms by (cases keys) (simp_all add: to_dict_def iter_Some triplets_entries triplets_entries_keys)

lemma item_record_descendant:
  "item_record parts root it = Inr (descendant_record parts root it)"
  by (simp add: item_record_def to_dict_def iter_Some triplets_entries descendant_record_def)

lemma comprehension_total:
  "(\<And>x. x \<in> set xs \<Longrightarrow> f x = Inr (g x)) \<Longrightarrow> comprehension f xs = Inr (map g xs)"
  by (induction xs) simp_all

lemma extend_loop_total:
  "extend_loop (os, cs) (map (\<lambda>s. Inr (f s, g s)) subs)
     = Inr (os @ concat (map f subs), cs @ concat (map g subs))"
  by (induction subs arbitrary: os cs) simp_all

lemma get_subcolls_descendants:
  "get_subcolls parts c (Some root) =
     Inr (map (descendant_record parts root) (descendant_objects c),
          map (descendant_record parts root) (descendant_collections c))"
proof (induction c)
  case (Collection c objs subs)
  have rec: "map (\<lambda>s. get_subcolls parts s (Some root)) subs =
        map (\<lambda>s. Inr (map (descendant_record parts root) (descendant_objects s),
                       map (descendant_record parts root) (descendant_collections s))) subs"
    using Collection.IH by simp
  have co: "comprehension (item_record parts root) objs = Inr (map (descendant_record parts root) objs)"
    by (rule comprehension_total) (simp add: item_record_descendant)
  have cc: "comprehension (item_record parts root) (map coll_item subs)
              = Inr (map (descendant_record parts root) (map coll_item subs))"
    by (rule comprehension_total) (simp add: item_record_descendant)
  show ?case
  proof (cases subs)
    case Nil
    then show ?thesis by (simp add: co)
  next
    case (Cons s ss)
    then have "0 < length subs" by simp
    then show ?thesis
      by (simp add: co cc rec extend_loop_total map_concat comp_def)
  qed
qed

text \<open>
  C8. The recursive export of a collection returns a dictionary whose one flat list
  \<^verbatim>\<open>dataobjects\<close> has an entry for every data object below the collection, at any depth,
  in the order of the walk; the \<^verbatim>\<open>rel_path\<close> of the entry is made of the segments of the
  object's path beyond the number of segments of the root's path, joined with \<^verbatim>\<open>/\<close>.
\<close>

theorem recursive_export_lists_every_descendant_object:
  assumes "item_kind (item meta) = CollectionKind" and "blacklist meta = Some pat"
  shows "\<exists>d colls objects.
           export_metadata_to_dict parts meta (objs, subs) True keys
             = Inr (WithDescendants d colls objects)
           \<and> map (\<lambda>r. (r_name r, r_irods_id r, r_rel_path r)) objects
             = map (\<lambda>ob. (item_name ob, item_id ob,
                           join ''/'' (drop (length (parts (item_path (item meta))))
                                           (parts (item_path ob)))))
                 (descendant_objects (Collection (item meta) objs subs))"
proof -
  obtain d where d: "to_dict meta keys = Inr d"
    using to_dict_pattern [OF assms(2)] by blast
  let ?root = "item_path (item meta)"
  let ?c = "Collection (item meta) objs subs"
  have "export_metadata_to_dict parts meta (objs, subs) True keys
          = Inr (WithDescendants d (map (descendant_record parts ?root) (descendant_collections ?c))
                   (map (descendant_record parts ?root) (descendant_objects ?c)))"
    using assms(1) d by (simp add: export_metadata_to_dict_def get_subcolls_descendants)
  moreover have "map (\<lambda>r. (r_name r, r_irods_id r, r_rel_path r))
                   (map (descendant_record parts ?root) (descendant_objects ?c))
             = map (\<lambda>ob. (item_name ob, item_id ob,
                           join ''/'' (drop (length (parts ?root)) (parts (item_path ob)))))
                 (descendant_objects ?c)"
    by (simp add: descendant_record_def)
  ultimately show ?thesis by blast
qed

lemma parts_root: "posix_parts ''/zone/home/root'' = [''/'', ''zone'', ''home'', ''root'']"
  by (simp add: posix_parts_def)

lemma parts_obj: "posix_parts ''/zone/home/root/sub/x.txt'' = [''/'', ''zone'', ''home'', ''root'', ''sub'', ''x.txt'']"
  by (simp add: posix_parts_def)

text \<open>
  The example of the specification: below \<^verbatim>\<open>/zone/home/root\<close>, the object \<^verbatim>\<open>x.txt\<close> of the
  subcollection \<^verbatim>\<open>sub\<close> is listed with the relative path \<^verbatim>\<open>sub/x.txt\<close>.
\<close>

theorem recursive_export_lists_every_descendant_object_witness:
  "item_kind (item \<lparr>item = example_root, blacklist = Some default_blacklist\<rparr>) = CollectionKind
   \<and> blacklist \<lparr>item = example_root, blacklist = Some default_blacklist\<rparr> = Some default_blacklist
   \<and> (\<exists>d colls objects.
        export_metadata_to_dict posix_parts \<lparr>item = example_root, blacklist = Some default_blacklist\<rparr>
          ([], [Collection example_subcollection [example_data_object] []]) True None
          = Inr (WithDescendants d colls objects)
        \<and> map (\<lambda>r. (r_name r, r_irods_id r, r_rel_path r)) objects = [(''x.txt'', 3, ''sub/x.txt'')])"
  using recursive_export_lists_every_descendant_object
    [where meta = "\<lparr>item = example_root, blacklist = Some default_blacklist\<rparr>"
       and pat = default_blacklist and parts = posix_parts and objs = "[]"
       and subs = "[Collection example_subcollection [example_data_object] []]" and keys = None]
  by (simp add: example_root_def example_data_object_def parts_root parts_obj)

end
